theory Spec2Isabelle
  imports Main "HOL-Library.Word" "HOL-Library.Sublist"
begin

section \<open>Strings of the host language\<close>

text \<open>
  A JavaScript string is a sequence of 16-bit code units. String literals of the source
  are ASCII, except for the party-popper emoji of one message, which is a surrogate pair.
\<close>

type_synonym jsstring = "16 word list"

definition lit :: "string \<Rightarrow> jsstring" where
  "lit s = map of_char s"

definition nl :: jsstring where
  "nl = [0x0A]"

text \<open>
  Template literals render a number in decimal. Indices and line numbers are
  non-negative integers far below \<open>2^53\<close>, so they are modelled as \<open>nat\<close>.
\<close>

definition digit :: "nat \<Rightarrow> 16 word" where
  "digit d = of_nat (48 + d)"

function num :: "nat \<Rightarrow> jsstring" where
  "num n = (if n < 10 then [digit n] else num (n div 10) @ [digit (n mod 10)])"
  by pat_completeness auto
termination
  by (relation "measure id") auto

text \<open>
  \<open>String.prototype.trim\<close> removes the code units of ECMAScript's WhiteSpace and
  LineTerminator productions from both ends.
\<close>

definition isWhiteSpace :: "16 word \<Rightarrow> bool" where
  "isWhiteSpace c \<longleftrightarrow>
     c \<in> set [0x09, 0x0A, 0x0B, 0x0C, 0x0D, 0x20, 0xA0, 0x1680,
                0x2028, 0x2029, 0x202F, 0x205F, 0x3000, 0xFEFF]
     \<or> (0x2000 \<le> c \<and> c \<le> 0x200A)"

definition trim :: "jsstring \<Rightarrow> jsstring" where
  "trim s = rev (dropWhile isWhiteSpace (rev (dropWhile isWhiteSpace s)))"

text \<open>
  \<open>path.basename\<close> is Node's and depends on the platform (\<open>path.posix\<close> or
  \<open>path.win32\<close>); the analyze operation takes it as a parameter. The POSIX one, without
  the extension argument: trailing slashes are dropped, then the part after the last
  slash is returned.
\<close>

definition basename_posix :: "jsstring \<Rightarrow> jsstring" where
  "basename_posix p =
     rev (takeWhile (\<lambda>c. c \<noteq> 0x2F) (dropWhile (\<lambda>c. c = 0x2F) (rev p)))"

section \<open>The editor's data\<close>

datatype DiagnosticSeverity = Error | Warning | Information | Hint

record position =
  line :: nat
  character :: nat

record range =
  start :: position
  endp :: position

record diagnostic =
  drange :: range
  message :: jsstring
  severity :: DiagnosticSeverity

text \<open>A text document: its lines are held without their line terminators.\<close>

record text_document =
  uri :: jsstring
  fileName :: jsstring
  lines :: "jsstring list"

record text_editor =
  document :: text_document

datatype js_error = IllegalLine

text \<open>
  \<open>document.lineAt(n)\<close> takes a line number in \<open>[0, lineCount)\<close> and throws
  \<open>Illegal value for `line`\<close> for any other; the model returns the line's text.
\<close>

definition lineAt :: "text_document \<Rightarrow> nat \<Rightarrow> js_error + jsstring" where
  "lineAt doc n = (if n < length (lines doc) then Inr (lines doc ! n) else Inl IllegalLine)"

section \<open>The extension host\<close>

text \<open>
  A message posted to the webview: \<open>{command: 'showResult', text}\<close> or
  \<open>{command: 'analyzeWithAI', errorContext}\<close>.
\<close>

datatype message = ShowResult jsstring | AnalyzeWithAI jsstring

fun command :: "message \<Rightarrow> jsstring" where
  "command (ShowResult t) = lit ''showResult''"
| "command (AnalyzeWithAI c) = lit ''analyzeWithAI''"

fun payload :: "message \<Rightarrow> jsstring" where
  "payload (ShowResult t) = t"
| "payload (AnalyzeWithAI c) = c"

type_synonym view_ref = nat

text \<open>
  The mutable state of the extension: the module's \<open>panel\<close> variable and the provider's
  fields \<open>_extensionUri\<close> and \<open>_view\<close>.
\<close>

record extension =
  panel :: "view_ref option"
  extensionUri :: jsstring
  view :: "view_ref option"

text \<open>
  What the host editor offers to the operation: the active editor, the diagnostics of a
  resource, and the message channel, held as the list of messages posted so far with the
  view each one went to.
\<close>

record host =
  activeTextEditor :: "text_editor option"
  getDiagnostics :: "jsstring \<Rightarrow> diagnostic list"
  posted :: "(view_ref \<times> message) list"

definition postMessage :: "view_ref \<Rightarrow> message \<Rightarrow> host \<Rightarrow> host" where
  "postMessage v m h = h\<lparr>posted := posted h @ [(v, m)]\<rparr>"

text \<open>
  \<open>resolveWebviewView\<close> stores the view. What it sets besides (the options and the HTML
  of the webview, and the handler that runs the analyze operation when the webview sends
  \<open>analyzeErrors\<close>) is state of the webview and not of the extension.
\<close>

definition resolveWebviewView :: "view_ref \<Rightarrow> extension \<Rightarrow> extension" where
  "resolveWebviewView webviewView x = x\<lparr>view := Some webviewView\<rparr>"

definition noActiveFile :: jsstring where
  "noActiveFile = lit ''No active file found. Please open a file first.''"

definition noErrorsFound :: jsstring where
  "noErrorsFound = lit ''No errors found in the current file! '' @ [0xD83C, 0xDF89]"

text \<open>
  The two strings the body of \<open>errors.forEach((err, idx) => ...)\<close> appends to
  \<open>errorContext\<close>: the template literals of the message and of the source line.
\<close>

definition errorLine :: "nat \<Rightarrow> diagnostic \<Rightarrow> jsstring" where
  "errorLine idx err = lit ''Error '' @ num (idx + 1) @ lit '': '' @ message err @ nl"

definition sourceLine :: "diagnostic \<Rightarrow> jsstring \<Rightarrow> jsstring" where
  "sourceLine err text =
     lit ''Line '' @ num (line (start (drange err)) + 1) @ lit '': '' @ trim text @ nl @ nl"

text \<open>
  The loop \<open>errors.forEach\<close> itself, with the index \<open>idx\<close> and the string
  \<open>errorContext\<close> it appends to. A throw of \<open>lineAt\<close> leaves the loop.
\<close>

fun forEach_errors ::
  "text_document \<Rightarrow> nat \<Rightarrow> diagnostic list \<Rightarrow> jsstring \<Rightarrow> js_error + jsstring" where
  "forEach_errors doc idx [] errorContext = Inr errorContext"
| "forEach_errors doc idx (err # errs) errorContext =
     (case lineAt doc (line (start (drange err))) of
        Inl e \<Rightarrow> Inl e
      | Inr text \<Rightarrow>
          forEach_errors doc (idx + 1) errs
            (errorContext @ errorLine idx err @ sourceLine err text))"

text \<open>
  \<open>_analyzeCurrentFile\<close>. The result is \<open>Inl\<close> when the operation throws (its promise
  is rejected), which can only happen before anything is posted, and otherwise the state
  of the extension and of the host after it.
\<close>

definition analyzeCurrentFile ::
  "(jsstring \<Rightarrow> jsstring) \<Rightarrow> extension \<Rightarrow> host \<Rightarrow> js_error + (extension \<times> host)" where
  "analyzeCurrentFile basename x h =
     (case view x of
        None \<Rightarrow> Inr (x, h)
      | Some v \<Rightarrow>
          (case activeTextEditor h of
             None \<Rightarrow> Inr (x, postMessage v (ShowResult noActiveFile) h)
           | Some editor \<Rightarrow>
               (let doc = document editor;
                    diagnostics = getDiagnostics h (uri doc);
                    errors = filter (\<lambda>d. severity d = Error) diagnostics
                in if length errors = 0
                   then Inr (x, postMessage v (ShowResult noErrorsFound) h)
                   else
                     (case forEach_errors doc 0 errors
                             (lit ''File: '' @ basename (fileName doc) @ nl @ nl) of
                        Inl e \<Rightarrow> Inl e
                      | Inr errorContext \<Rightarrow>
                          Inr (x, postMessage v (AnalyzeWithAI errorContext) h)))))"

text \<open>The messages an invocation posts: none when it throws.\<close>

definition posts ::
  "(jsstring \<Rightarrow> jsstring) \<Rightarrow> extension \<Rightarrow> host \<Rightarrow> (view_ref \<times> message) list" where
  "posts basename x h =
     (case analyzeCurrentFile basename x h of
        Inl e \<Rightarrow> []
      | Inr (x', h') \<Rightarrow> drop (length (posted h)) (posted h'))"

abbreviation errorDiagnostics :: "host \<Rightarrow> text_document \<Rightarrow> diagnostic list" where
  "errorDiagnostics h doc \<equiv> filter (\<lambda>d. severity d = Error) (getDiagnostics h (uri doc))"

section \<open>The report as the specification words it\<close>

text \<open>
  The specification's error-report record of one diagnostic, with its 1-based label
  \<open>n\<close>: the diagnostic message, the 1-based line number and the trimmed text of the
  source line. The prompt is the file name followed by one such block per flagged error,
  in diagnostic order.
\<close>

definition report_block :: "text_document \<Rightarrow> nat \<Rightarrow> diagnostic \<Rightarrow> jsstring" where
  "report_block doc n d =
     lit ''Error '' @ num n @ lit '': '' @ message d @ nl
       @ lit ''Line '' @ num (line (start (drange d)) + 1) @ lit '': ''
       @ trim (lines doc ! line (start (drange d))) @ nl @ nl"

definition report_blocks :: "text_document \<Rightarrow> diagnostic list \<Rightarrow> jsstring list" where
  "report_blocks doc ds = map (\<lambda>i. report_block doc (i + 1) (ds ! i)) [0..<length ds]"

definition render_report :: "jsstring \<Rightarrow> text_document \<Rightarrow> diagnostic list \<Rightarrow> jsstring" where
  "render_report name doc ds = lit ''File: '' @ name @ nl @ nl @ concat (report_blocks doc ds)"

text \<open>A diagnostic starts in the document when its start line is one of the document's.\<close>

definition in_document :: "text_document \<Rightarrow> diagnostic \<Rightarrow> bool" where
  "in_document doc d \<longleftrightarrow> line (start (drange d)) < length (lines doc)"

section \<open>The webview's script: loading the model\<close>

text \<open>
  The page state the script of the webview reads and writes: its variables
  \<open>isInitialized\<close> and \<open>initAttempts\<close>, the status element's HTML, the button's
  \<open>disabled\<close>, \<open>textContent\<close> and \<open>onclick\<close>, and the pending \<open>setTimeout\<close>
  calls with their delay in milliseconds. Two fields are bookkeeping of the model and not
  variables of the script: \<open>loads\<close> counts the calls of \<open>pipeline\<close> made so far, and
  \<open>fired\<close> lists the timers that have run. The outcome of a call of the third-party
  \<open>pipeline\<close> is an argument: it resolves, or it rejects with an error message. The
  status texts that the progress callback writes while the call is pending are
  overwritten when it settles and are left out.
\<close>

datatype handler = CallAnalyzeErrors | RetryLoad

datatype callback = CallInitModel | ClearStatus

datatype load_result = Loaded | LoadFailed jsstring

record page =
  isInitialized :: bool
  initAttempts :: nat
  statusHtml :: jsstring
  btnDisabled :: bool
  btnText :: jsstring
  btnOnclick :: handler
  timers :: "(nat \<times> callback) list"
  loads :: nat
  fired :: "(nat \<times> callback) list"

definition MAX_ATTEMPTS :: nat where
  "MAX_ATTEMPTS = 3"

definition spinner :: jsstring where
  \<open>spinner = lit ''<span class="loading"></span>''\<close>

definition statusLoading :: "nat \<Rightarrow> jsstring" where
  "statusLoading n =
     lit ''Loading AI model (attempt '' @ num n @ lit ''/'' @ num MAX_ATTEMPTS @ lit '')...''
       @ spinner"

definition statusReady :: jsstring where
  "statusReady = [0x2713] @ lit '' Model ready!''"

definition statusRetrying :: "jsstring \<Rightarrow> jsstring" where
  "statusRetrying msg =
     [0x2717] @ lit '' Error: '' @ msg @ lit ''<br>Retrying in 2 seconds...''"

definition statusFailed :: "jsstring \<Rightarrow> jsstring" where
  "statusFailed msg =
     [0x2717] @ lit '' Failed to load model after '' @ num MAX_ATTEMPTS
       @ lit '' attempts.<br>Error: '' @ msg
       @ lit ''<br><br>Try refreshing the panel or checking your internet connection.''"

text \<open>
  \<open>initModel()\<close>, from its call to the moment the awaited \<open>pipeline\<close> call has settled
  with the outcome \<open>r\<close>. The button is disabled while the call is pending, so no click
  runs in between.
\<close>

definition initModel :: "load_result \<Rightarrow> page \<Rightarrow> page" where
  "initModel r p =
     (if isInitialized p then p
      else
        let p1 = p\<lparr>initAttempts := initAttempts p + 1\<rparr>;
            p2 = p1\<lparr>statusHtml := statusLoading (initAttempts p1), btnDisabled := True,
                     loads := loads p1 + 1\<rparr>
        in case r of
             Loaded \<Rightarrow>
               p2\<lparr>isInitialized := True, statusHtml := statusReady, btnDisabled := False,
                  timers := timers p2 @ [(3000, ClearStatus)]\<rparr>
           | LoadFailed msg \<Rightarrow>
               if initAttempts p2 < MAX_ATTEMPTS
               then p2\<lparr>statusHtml := statusRetrying msg,
                       timers := timers p2 @ [(2000, CallInitModel)]\<rparr>
               else p2\<lparr>statusHtml := statusFailed msg, btnDisabled := False,
                       btnText := lit ''Retry Loading Model'', btnOnclick := RetryLoad\<rparr>)"

text \<open>
  The oldest pending timer runs: a retry of \<open>initModel\<close>, or the clearing of the status
  three seconds after a successful load.
\<close>

definition fire :: "load_result \<Rightarrow> page \<Rightarrow> page" where
  "fire r p =
     (case timers p of
        [] \<Rightarrow> p
      | t # ts \<Rightarrow>
          (let q = p\<lparr>timers := ts, fired := fired p @ [t]\<rparr>
           in case snd t of
                CallInitModel \<Rightarrow> initModel r q
              | ClearStatus \<Rightarrow> q\<lparr>statusHtml := []\<rparr>))"

text \<open>
  A click on the button, with the commands it sends to the extension. A disabled button
  takes no click. The handler is \<open>analyzeErrors()\<close>, which sends \<open>analyzeErrors\<close>, or
  the one that the last failed attempt installs.
\<close>

definition click :: "load_result \<Rightarrow> page \<Rightarrow> page \<times> jsstring list" where
  "click r p =
     (if btnDisabled p then (p, [])
      else case btnOnclick p of
             CallAnalyzeErrors \<Rightarrow> (p, [lit ''analyzeErrors''])
           | RetryLoad \<Rightarrow>
               (initModel r (p\<lparr>initAttempts := 0, btnText := lit ''Analyze Errors'',
                               btnOnclick := CallAnalyzeErrors\<rparr>), []))"

text \<open>
  The event loop runs the pending timers, oldest first, until none is left; the outcome
  of the \<open>n\<close>-th call of \<open>pipeline\<close> is \<open>pipeline n\<close>. The measure \<open>pending\<close>
  shows that it stops.
\<close>

definition pending :: "page \<Rightarrow> nat" where
  "pending p =
     2 * length (filter (\<lambda>t. snd t = CallInitModel) (timers p))
       + length (filter (\<lambda>t. snd t = ClearStatus) (timers p))
       + (MAX_ATTEMPTS - initAttempts p)"

function settle :: "(nat \<Rightarrow> load_result) \<Rightarrow> page \<Rightarrow> page" where
  "settle pipeline p =
     (if timers p = [] then p else settle pipeline (fire (pipeline (loads p)) p))"
  by pat_completeness auto
termination
proof (relation "measure (\<lambda>(pipeline, p). pending p)")
  show "wf (measure (\<lambda>(pipeline :: nat \<Rightarrow> load_result, p). pending p))"
    by simp
next
  fix pipeline :: "nat \<Rightarrow> load_result" and p :: page
  assume "timers p \<noteq> []"
  then have "pending (fire (pipeline (loads p)) p) < pending p"
    by (cases "timers p"; cases "pipeline (loads p)")
       (auto simp: fire_def initModel_def pending_def Let_def MAX_ATTEMPTS_def
             split: callback.splits prod.splits)
  then show "((pipeline, fire (pipeline (loads p)) p), (pipeline, p))
               \<in> measure (\<lambda>(pipeline, p). pending p)"
    by simp
qed

declare settle.simps [simp del]

text \<open>The page as the HTML and the script's declarations set it up.\<close>

definition page0 :: page where
  "page0 = \<lparr>isInitialized = False, initAttempts = 0, statusHtml = [], btnDisabled = False,
            btnText = lit ''Analyze Errors'', btnOnclick = CallAnalyzeErrors, timers = [],
            loads = 0, fired = []\<rparr>"

text \<open>The script starts by calling \<open>initModel()\<close>; the timers then run.\<close>

definition boot :: "(nat \<Rightarrow> load_result) \<Rightarrow> page" where
  "boot pipeline = settle pipeline (initModel (pipeline (loads page0)) page0)"

text \<open>
  What holds of the page while the timers run: every load was counted as an attempt, at
  most \<open>MAX_ATTEMPTS\<close> attempts were made, at most one retry is pending, and one is
  pending only while attempts are left.
\<close>

definition retry_inv :: "page \<Rightarrow> bool" where
  "retry_inv p \<longleftrightarrow>
     loads p = initAttempts p
     \<and> initAttempts p \<le> MAX_ATTEMPTS
     \<and> length (filter (\<lambda>t. snd t = CallInitModel) (timers p)) \<le> 1
     \<and> ((\<exists>t \<in> set (timers p). snd t = CallInitModel) \<longrightarrow> initAttempts p < MAX_ATTEMPTS)"

section \<open>Sample inputs\<close>

text \<open>
  A view that is not resolved yet and one that is; a three-line document with two errors
  (the second one spanning all three lines) and a warning; the same document with only a
  warning, with a diagnostic that points behind its end, after it was cut down to one
  line while the diagnostics still describe the longer text, and with a different third
  line.
\<close>

definition x_unresolved :: extension where
  "x_unresolved = \<lparr>panel = None, extensionUri = lit ''/ext'', view = None\<rparr>"

definition x_resolved :: extension where
  "x_resolved = resolveWebviewView 1 x_unresolved"

definition sample_doc :: text_document where
  "sample_doc = \<lparr>uri = lit ''file:///src/main.ts'', fileName = lit ''/src/main.ts'',
                 lines = [lit ''if (x) {'', lit ''   foo(x;  '', lit ''}'']\<rparr>"

definition d_paren :: diagnostic where
  "d_paren = \<lparr>drange = \<lparr>start = \<lparr>line = 1, character = 9\<rparr>,
                          endp = \<lparr>line = 1, character = 10\<rparr>\<rparr>,
              message = lit ''Closing parenthesis expected.'', severity = Error\<rparr>"

definition d_unused :: diagnostic where
  "d_unused = \<lparr>drange = \<lparr>start = \<lparr>line = 1, character = 3\<rparr>,
                           endp = \<lparr>line = 1, character = 6\<rparr>\<rparr>,
               message = lit ''Unused result.'', severity = Warning\<rparr>"

definition d_block :: diagnostic where
  "d_block = \<lparr>drange = \<lparr>start = \<lparr>line = 0, character = 0\<rparr>,
                          endp = \<lparr>line = 2, character = 1\<rparr>\<rparr>,
              message = lit ''Unreachable block.'', severity = Error\<rparr>"

definition h_sample :: host where
  "h_sample = \<lparr>activeTextEditor = Some \<lparr>document = sample_doc\<rparr>,
               getDiagnostics = (\<lambda>u. if u = uri sample_doc then [d_paren, d_unused, d_block] else []),
               posted = []\<rparr>"

definition h_no_editor :: host where
  "h_no_editor = \<lparr>activeTextEditor = None, getDiagnostics = (\<lambda>u. []), posted = []\<rparr>"

definition h_clean :: host where
  "h_clean = \<lparr>activeTextEditor = Some \<lparr>document = sample_doc\<rparr>,
              getDiagnostics = (\<lambda>u. if u = uri sample_doc then [d_unused] else []),
              posted = []\<rparr>"

definition d_stale :: diagnostic where
  "d_stale = \<lparr>drange = \<lparr>start = \<lparr>line = 7, character = 0\<rparr>,
                          endp = \<lparr>line = 7, character = 4\<rparr>\<rparr>,
              message = lit ''Unknown name.'', severity = Error\<rparr>"

definition h_stale :: host where
  "h_stale = \<lparr>activeTextEditor = Some \<lparr>document = sample_doc\<rparr>,
              getDiagnostics = (\<lambda>u. if u = uri sample_doc then [d_stale] else []),
              posted = []\<rparr>"

definition sample_report :: jsstring where
  "sample_report =
     lit ''File: main.ts'' @ nl @ nl
       @ lit ''Error 1: Closing parenthesis expected.'' @ nl
       @ lit ''Line 2: foo(x;'' @ nl @ nl
       @ lit ''Error 2: Unreachable block.'' @ nl
       @ lit ''Line 1: if (x) {'' @ nl @ nl"

definition h_shrunk :: host where
  "h_shrunk = \<lparr>activeTextEditor =
                  Some \<lparr>document = sample_doc\<lparr>lines := [lit ''if (x) {}'']\<rparr>\<rparr>,
               getDiagnostics = (\<lambda>u. if u = uri sample_doc then [d_paren, d_unused] else []),
               posted = []\<rparr>"

text \<open>The two records of the report on the sample document.\<close>

definition sample_record1 :: jsstring where
  "sample_record1 =
     lit ''Error 1: Closing parenthesis expected.'' @ nl @ lit ''Line 2: foo(x;'' @ nl @ nl"

definition sample_record2 :: jsstring where
  "sample_record2 =
     lit ''Error 2: Unreachable block.'' @ nl @ lit ''Line 1: if (x) {'' @ nl @ nl"

definition sample_doc_edited :: text_document where
  "sample_doc_edited =
     sample_doc\<lparr>lines := [lit ''if (x) {'', lit ''   foo(x;  '', lit ''} else { bar(); }'']\<rparr>"

section \<open>Properties of the loop over the errors\<close>

lemma forEach_errors_blocks:
  "list_all (in_document doc) errs \<Longrightarrow>
   forEach_errors doc idx errs ctx =
     Inr (ctx @ concat (map (\<lambda>i. report_block doc (idx + i + 1) (errs ! i)) [0..<length errs]))"
proof (induction errs arbitrary: idx ctx)
  case Nil
  then show ?case by simp
next
  case (Cons err errs)
  have shift: "map (\<lambda>i. report_block doc (idx + i + 1) ((err # errs) ! i)) [0..<length (err # errs)]
      = report_block doc (idx + 1) err
        # map (\<lambda>i. report_block doc (Suc idx + i + 1) (errs ! i)) [0..<length errs]"
  proof -
    have "[0..<length (err # errs)] = 0 # map Suc [0..<length errs]"
      by (simp add: upt_conv_Cons map_Suc_upt del: upt_Suc)
    then show ?thesis by (simp add: comp_def)
  qed
  from Cons.prems have here: "in_document doc err" and rest: "list_all (in_document doc) errs"
    by simp_all
  from here have inr:
    "lineAt doc (line (start (drange err))) = Inr (lines doc ! line (start (drange err)))"
    by (simp add: in_document_def lineAt_def)
  show ?case
    unfolding shift
    by (simp add: inr Cons.IH [OF rest] report_block_def errorLine_def sourceLine_def)
qed

lemma forEach_errors_throws:
  "\<not> list_all (in_document doc) errs \<Longrightarrow> forEach_errors doc idx errs ctx = Inl IllegalLine"
  by (induction errs arbitrary: idx ctx) (auto simp: in_document_def lineAt_def)

lemma forEach_errors_report:
  "list_all (in_document doc) errs \<Longrightarrow>
   forEach_errors doc 0 errs hdr = Inr (hdr @ concat (report_blocks doc errs))"
  using forEach_errors_blocks [of doc errs 0 hdr] by (simp add: report_blocks_def)

lemma forEach_errors_returns_iff:
  "(\<exists>txt. forEach_errors doc idx errs ctx = Inr txt) \<longleftrightarrow> list_all (in_document doc) errs"
  using forEach_errors_blocks [of doc errs idx ctx] forEach_errors_throws [of doc errs idx ctx]
  by (cases "list_all (in_document doc) errs") auto

section \<open>The outcomes of the analyze operation\<close>

lemma analyze_no_editor:
  "view x = Some v \<Longrightarrow> activeTextEditor h = None \<Longrightarrow>
   analyzeCurrentFile basename x h = Inr (x, postMessage v (ShowResult noActiveFile) h)"
  by (simp add: analyzeCurrentFile_def)

lemma analyze_no_errors:
  "view x = Some v \<Longrightarrow> activeTextEditor h = Some editor \<Longrightarrow>
   errorDiagnostics h (document editor) = [] \<Longrightarrow>
   analyzeCurrentFile basename x h = Inr (x, postMessage v (ShowResult noErrorsFound) h)"
  by (simp add: analyzeCurrentFile_def Let_def)

lemma analyze_errors:
  "view x = Some v \<Longrightarrow> activeTextEditor h = Some editor \<Longrightarrow>
   errorDiagnostics h (document editor) \<noteq> [] \<Longrightarrow>
   list_all (in_document (document editor)) (errorDiagnostics h (document editor)) \<Longrightarrow>
   analyzeCurrentFile basename x h =
     Inr (x, postMessage v
               (AnalyzeWithAI (render_report (basename (fileName (document editor)))
                                 (document editor) (errorDiagnostics h (document editor)))) h)"
  by (simp add: analyzeCurrentFile_def Let_def forEach_errors_report render_report_def)

lemma analyze_stale:
  "view x = Some v \<Longrightarrow> activeTextEditor h = Some editor \<Longrightarrow>
   \<not> list_all (in_document (document editor)) (errorDiagnostics h (document editor)) \<Longrightarrow>
   analyzeCurrentFile basename x h = Inl IllegalLine"
proof -
  assume v: "view x = Some v" and e: "activeTextEditor h = Some editor"
    and stale: "\<not> list_all (in_document (document editor)) (errorDiagnostics h (document editor))"
  from stale have "errorDiagnostics h (document editor) \<noteq> []"
    by auto
  with v e stale show ?thesis
    by (simp add: analyzeCurrentFile_def Let_def forEach_errors_throws)
qed

lemma posts_unresolved: "view x = None \<Longrightarrow> posts basename x h = []"
  by (simp add: posts_def analyzeCurrentFile_def)

lemma posts_no_editor:
  "view x = Some v \<Longrightarrow> activeTextEditor h = None \<Longrightarrow>
   posts basename x h = [(v, ShowResult noActiveFile)]"
  by (simp add: posts_def analyze_no_editor postMessage_def)

lemma posts_no_errors:
  "view x = Some v \<Longrightarrow> activeTextEditor h = Some editor \<Longrightarrow>
   errorDiagnostics h (document editor) = [] \<Longrightarrow>
   posts basename x h = [(v, ShowResult noErrorsFound)]"
  by (simp add: posts_def analyze_no_errors postMessage_def)

lemma posts_errors:
  "view x = Some v \<Longrightarrow> activeTextEditor h = Some editor \<Longrightarrow>
   errorDiagnostics h (document editor) \<noteq> [] \<Longrightarrow>
   list_all (in_document (document editor)) (errorDiagnostics h (document editor)) \<Longrightarrow>
   posts basename x h =
     [(v, AnalyzeWithAI (render_report (basename (fileName (document editor)))
                           (document editor) (errorDiagnostics h (document editor))))]"
  by (simp add: posts_def analyze_errors postMessage_def)

lemma posts_stale:
  "view x = Some v \<Longrightarrow> activeTextEditor h = Some editor \<Longrightarrow>
   \<not> list_all (in_document (document editor)) (errorDiagnostics h (document editor)) \<Longrightarrow>
   posts basename x h = []"
  by (simp add: posts_def analyze_stale)

lemma noActiveFile_neq_noErrorsFound: "noActiveFile \<noteq> noErrorsFound"
  by (simp add: noActiveFile_def noErrorsFound_def lit_def)

lemma analyze_outcomes:
  obtains (unresolved) "view x = None"
  | (no_editor) v where "view x = Some v" "activeTextEditor h = None"
  | (no_errors) v editor where "view x = Some v" "activeTextEditor h = Some editor"
      "errorDiagnostics h (document editor) = []"
  | (errors) v editor where "view x = Some v" "activeTextEditor h = Some editor"
      "errorDiagnostics h (document editor) \<noteq> []"
      "list_all (in_document (document editor)) (errorDiagnostics h (document editor))"
  | (stale) v editor where "view x = Some v" "activeTextEditor h = Some editor"
      "\<not> list_all (in_document (document editor)) (errorDiagnostics h (document editor))"
proof (cases "view x")
  case None
  then show ?thesis by (rule unresolved)
next
  case v: (Some v)
  show ?thesis
  proof (cases "activeTextEditor h")
    case None
    with v show ?thesis by (rule no_editor)
  next
    case e: (Some editor)
    show ?thesis
    proof (cases "list_all (in_document (document editor)) (errorDiagnostics h (document editor))")
      case False
      with v e show ?thesis by (rule stale)
    next
      case True
      show ?thesis
      proof (cases "errorDiagnostics h (document editor) = []")
        case True
        with v e show ?thesis by (rule no_errors)
      next
        case False
        from v e False \<open>list_all (in_document (document editor)) (errorDiagnostics h (document editor))\<close>
        show ?thesis by (rule errors)
      qed
    qed
  qed
qed

lemma posts_at_most_one: "length (posts basename x h) \<le> 1"
  by (cases rule: analyze_outcomes [where x = x and h = h])
     (simp_all add: posts_unresolved posts_no_editor posts_no_errors posts_errors posts_stale)

lemma analyze_returns_posts:
  assumes "analyzeCurrentFile basename x h = Inr (x', h')"
  shows "x' = x \<and> h' = h\<lparr>posted := posted h @ posts basename x h\<rparr>"
proof (cases rule: analyze_outcomes [where x = x and h = h])
  case unresolved
  with assms show ?thesis
    by (simp add: analyzeCurrentFile_def posts_unresolved)
next
  case (no_editor v)
  with assms show ?thesis
    by (auto simp: analyze_no_editor posts_no_editor postMessage_def)
next
  case (no_errors v editor)
  with assms show ?thesis
    by (auto simp: analyze_no_errors posts_no_errors postMessage_def)
next
  case (errors v editor)
  with assms show ?thesis
    by (auto simp: analyze_errors posts_errors postMessage_def)
next
  case (stale v editor)
  with assms show ?thesis
    by (simp add: analyze_stale)
qed

section \<open>Evaluating the sample inputs\<close>

lemma sample_errors: "errorDiagnostics h_sample sample_doc = [d_paren, d_block]"
  by (simp add: h_sample_def d_paren_def d_unused_def d_block_def)

lemma sample_in_document: "list_all (in_document sample_doc) [d_paren, d_block]"
  by (simp add: in_document_def sample_doc_def d_paren_def d_block_def)

lemma sample_render:
  "render_report (basename_posix (fileName sample_doc)) sample_doc [d_paren, d_block] = sample_report"
  by (simp add: render_report_def report_blocks_def report_block_def sample_report_def
        sample_doc_def d_paren_def d_block_def basename_posix_def trim_def isWhiteSpace_def
        lit_def nl_def digit_def upt_conv_Cons del: upt_Suc)

lemma sample_loop:
  "forEach_errors sample_doc 0 [d_paren, d_block] (lit ''File: main.ts'' @ nl @ nl)
     = Inr sample_report"
proof -
  have name: "basename_posix (fileName sample_doc) = lit ''main.ts''"
    by (simp add: basename_posix_def sample_doc_def lit_def)
  have hdr: "lit ''File: main.ts'' = lit ''File: '' @ lit ''main.ts''"
    by (simp add: lit_def)
  have "render_report (lit ''main.ts'') sample_doc [d_paren, d_block] = sample_report"
    using sample_render by (simp only: name)
  then have rep: "(lit ''File: main.ts'' @ nl @ nl)
                    @ concat (report_blocks sample_doc [d_paren, d_block]) = sample_report"
    by (simp only: render_report_def hdr append_assoc)
  have "forEach_errors sample_doc 0 [d_paren, d_block] (lit ''File: main.ts'' @ nl @ nl)
          = Inr ((lit ''File: main.ts'' @ nl @ nl)
                   @ concat (report_blocks sample_doc [d_paren, d_block]))"
    by (rule forEach_errors_report [OF sample_in_document])
  then show ?thesis
    by (simp only: rep)
qed

lemma sample_posts:
  "posts basename_posix x_resolved h_sample = [(1, AnalyzeWithAI sample_report)]"
proof -
  have v: "view x_resolved = Some 1"
    by (simp add: x_resolved_def resolveWebviewView_def)
  have e: "activeTextEditor h_sample = Some \<lparr>document = sample_doc\<rparr>"
    by (simp add: h_sample_def)
  show ?thesis
    using posts_errors [OF v e, of basename_posix] sample_in_document
    by (simp add: sample_errors sample_render)
qed

lemma view_x_resolved: "view x_resolved = Some 1"
  by (simp add: x_resolved_def resolveWebviewView_def)

lemma sample_analyze:
  "analyzeCurrentFile basename_posix x_resolved h_sample =
     Inr (x_resolved, h_sample\<lparr>posted := [(1, AnalyzeWithAI sample_report)]\<rparr>)"
proof -
  have e: "activeTextEditor h_sample = Some \<lparr>document = sample_doc\<rparr>"
    by (simp add: h_sample_def)
  have p: "posted h_sample = []"
    by (simp add: h_sample_def)
  show ?thesis
    using analyze_errors [OF view_x_resolved e, of basename_posix] sample_in_document
    by (simp add: sample_errors sample_render postMessage_def p)
qed

section \<open>What the posted messages depend on\<close>

lemma posts_analyzeWithAI:
  assumes "(v, AnalyzeWithAI errorContext) \<in> set (posts basename x h)"
  obtains editor where "view x = Some v" "activeTextEditor h = Some editor"
    "errorDiagnostics h (document editor) \<noteq> []"
    "list_all (in_document (document editor)) (errorDiagnostics h (document editor))"
    "errorContext = render_report (basename (fileName (document editor))) (document editor)
                      (errorDiagnostics h (document editor))"
proof (cases rule: analyze_outcomes [where x = x and h = h])
  case unresolved
  with assms show ?thesis by (simp add: posts_unresolved)
next
  case (no_editor v')
  with assms show ?thesis by (simp add: posts_no_editor)
next
  case (no_errors v' editor)
  with assms show ?thesis by (simp add: posts_no_errors)
next
  case (errors v' editor)
  with assms that [of editor] show ?thesis by (simp add: posts_errors)
next
  case (stale v' editor)
  with assms show ?thesis by (simp add: posts_stale)
qed

lemma posts_eq:
  "posts basename x h =
     (case view x of
        None \<Rightarrow> []
      | Some v \<Rightarrow>
          (case activeTextEditor h of
             None \<Rightarrow> [(v, ShowResult noActiveFile)]
           | Some editor \<Rightarrow>
               if errorDiagnostics h (document editor) = [] then [(v, ShowResult noErrorsFound)]
               else if list_all (in_document (document editor))
                         (errorDiagnostics h (document editor))
               then [(v, AnalyzeWithAI
                          (render_report (basename (fileName (document editor)))
                             (document editor) (errorDiagnostics h (document editor))))]
               else []))"
  by (cases rule: analyze_outcomes [where x = x and h = h])
     (auto simp: posts_unresolved posts_no_editor posts_no_errors posts_errors posts_stale)

lemma render_report_lines:
  "lines doc = lines doc' \<Longrightarrow> render_report name doc ds = render_report name doc' ds"
  by (simp add: render_report_def report_blocks_def report_block_def)

lemma in_document_lines:
  "lines doc = lines doc' \<Longrightarrow> in_document doc = in_document doc'"
  by (simp add: in_document_def fun_eq_iff)

lemma posts_deterministic:
  assumes "view x = view x'"
      and "activeTextEditor h = None \<longleftrightarrow> activeTextEditor h' = None"
      and "\<And>editor editor'.
             activeTextEditor h = Some editor \<Longrightarrow> activeTextEditor h' = Some editor' \<Longrightarrow>
             lines (document editor) = lines (document editor')
             \<and> fileName (document editor) = fileName (document editor')
             \<and> errorDiagnostics h (document editor) = errorDiagnostics h' (document editor')"
  shows "posts basename x h = posts basename x' h'"
proof (cases "activeTextEditor h")
  case None
  with assms(1,2) show ?thesis
    by (simp add: posts_eq split: option.splits)
next
  case (Some editor)
  with assms(2) obtain editor' where e': "activeTextEditor h' = Some editor'"
    by auto
  from assms(3) [OF Some e'] have same:
    "lines (document editor) = lines (document editor')"
    "fileName (document editor) = fileName (document editor')"
    "errorDiagnostics h (document editor) = errorDiagnostics h' (document editor')"
    by simp_all
  show ?thesis
    using assms(1) Some e' same(2,3) render_report_lines [OF same(1)] in_document_lines [OF same(1)]
    by (simp add: posts_eq split: option.splits)
qed

section \<open>Filtering and trimming\<close>

lemma count_list_filter:
  "count_list (filter P xs) d = (if P d then count_list xs d else 0)"
  by (induction xs) auto

lemma trim_splits:
  "\<exists>l r. s = l @ trim s @ r \<and> list_all isWhiteSpace l \<and> list_all isWhiteSpace r"
proof -
  let ?t = "dropWhile isWhiteSpace s"
  let ?r = "rev (takeWhile isWhiteSpace (rev ?t))"
  have "rev (takeWhile isWhiteSpace (rev ?t) @ dropWhile isWhiteSpace (rev ?t)) = ?t"
    by (simp only: takeWhile_dropWhile_id rev_rev_ident)
  then have t: "?t = trim s @ ?r"
    by (simp only: trim_def rev_append)
  have "s = takeWhile isWhiteSpace s @ ?t"
    by simp
  with t have "s = takeWhile isWhiteSpace s @ trim s @ ?r"
    by simp
  moreover have "list_all isWhiteSpace (takeWhile isWhiteSpace s)"
    by (simp add: list_all_iff) (meson set_takeWhileD)
  moreover have "list_all isWhiteSpace ?r"
    by (simp add: list_all_iff) (meson set_takeWhileD)
  ultimately show ?thesis
    by blast
qed

lemma trim_ends:
  assumes "trim s \<noteq> []"
  shows "\<not> isWhiteSpace (hd (trim s)) \<and> \<not> isWhiteSpace (last (trim s))"
proof -
  let ?t = "dropWhile isWhiteSpace s"
  let ?u = "dropWhile isWhiteSpace (rev ?t)"
  from assms have u: "?u \<noteq> []"
    by (simp add: trim_def)
  have t: "?t \<noteq> []"
  proof
    assume empty: "?t = []"
    have "?u = []"
      unfolding empty by simp
    with u show False ..
  qed
  from u have "\<not> isWhiteSpace (hd ?u)"
    by (rule hd_dropWhile)
  with u have last: "\<not> isWhiteSpace (last (trim s))"
    by (simp add: trim_def last_rev)
  from t have hd_t: "\<not> isWhiteSpace (hd ?t)"
    by (rule hd_dropWhile)
  have "rev ?t = takeWhile isWhiteSpace (rev ?t) @ ?u"
    by simp
  with u have "last (rev ?t) = last ?u"
    by (metis last_appendR)
  with t have "last ?u = hd ?t"
    by (simp add: last_rev)
  with u have "hd (trim s) = hd ?t"
    by (simp add: trim_def hd_rev)
  with hd_t last show ?thesis
    by simp
qed

section \<open>Running the timers\<close>

lemma settle_done: "timers p = [] \<Longrightarrow> settle pipeline p = p"
  by (subst settle.simps) simp

lemma settle_step:
  "timers p \<noteq> [] \<Longrightarrow> settle pipeline p = settle pipeline (fire (pipeline (loads p)) p)"
  by (subst settle.simps) simp

lemma retry_inv_initModel:
  assumes "retry_inv p" and "\<forall>t \<in> set (timers p). snd t \<noteq> CallInitModel"
    and "initAttempts p < MAX_ATTEMPTS"
  shows "retry_inv (initModel r p)"
  using assms
  by (cases r) (auto simp: retry_inv_def initModel_def Let_def MAX_ATTEMPTS_def)

lemma retry_inv_fire:
  assumes "retry_inv p"
  shows "retry_inv (fire r p)"
proof (cases "timers p")
  case Nil
  with assms show ?thesis by (simp add: fire_def)
next
  case (Cons t ts)
  show ?thesis
  proof (cases "snd t")
    case ClearStatus
    with assms Cons show ?thesis
      by (auto simp: fire_def retry_inv_def)
  next
    case CallInitModel
    let ?q = "p\<lparr>timers := ts, fired := fired p @ [t]\<rparr>"
    from assms Cons CallInitModel have none: "\<forall>u \<in> set (timers ?q). snd u \<noteq> CallInitModel"
      by (auto simp: retry_inv_def filter_empty_conv)
    from assms Cons CallInitModel have lt: "initAttempts ?q < MAX_ATTEMPTS"
      by (auto simp: retry_inv_def)
    from assms Cons none have "retry_inv ?q"
      by (auto simp: retry_inv_def)
    then have "retry_inv (initModel r ?q)"
      using none lt by (rule retry_inv_initModel)
    with Cons CallInitModel show ?thesis
      by (simp add: fire_def)
  qed
qed

lemma settle_retry_inv:
  "retry_inv p \<Longrightarrow> retry_inv (settle pipeline p) \<and> timers (settle pipeline p) = []"
proof (induction pipeline p rule: settle.induct)
  case (1 pipeline p)
  show ?case
  proof (cases "timers p = []")
    case True
    with "1.prems" show ?thesis
      by (simp add: settle_done)
  next
    case False
    from "1.prems" have "retry_inv (fire (pipeline (loads p)) p)"
      by (rule retry_inv_fire)
    with "1.IH" [OF False] show ?thesis
      by (simp add: settle_step [OF False])
  qed
qed

lemma boot_bounded: "loads (boot pipeline) \<le> MAX_ATTEMPTS \<and> timers (boot pipeline) = []"
proof -
  have "retry_inv page0"
    by (simp add: retry_inv_def page0_def MAX_ATTEMPTS_def)
  moreover have "\<forall>t \<in> set (timers page0). snd t \<noteq> CallInitModel"
    by (simp add: page0_def)
  moreover have "initAttempts page0 < MAX_ATTEMPTS"
    by (simp add: page0_def MAX_ATTEMPTS_def)
  ultimately have "retry_inv (initModel (pipeline (loads page0)) page0)"
    by (rule retry_inv_initModel)
  then have "retry_inv (boot pipeline) \<and> timers (boot pipeline) = []"
    unfolding boot_def by (rule settle_retry_inv)
  then show ?thesis
    by (simp add: retry_inv_def)
qed

lemma boot_all_failed:
  assumes "pipeline 0 = LoadFailed e0" "pipeline 1 = LoadFailed e1" "pipeline 2 = LoadFailed e2"
  shows "boot pipeline =
           page0\<lparr>initAttempts := 3, statusHtml := statusFailed e2, btnDisabled := False,
                 btnText := lit ''Retry Loading Model'', btnOnclick := RetryLoad, loads := 3,
                 fired := [(2000, CallInitModel), (2000, CallInitModel)]\<rparr>"
proof -
  let ?p1 = "page0\<lparr>initAttempts := 1, statusHtml := statusRetrying e0, btnDisabled := True,
                    timers := [(2000, CallInitModel)], loads := 1\<rparr>"
  let ?p2 = "page0\<lparr>initAttempts := 2, statusHtml := statusRetrying e1, btnDisabled := True,
                    timers := [(2000, CallInitModel)], loads := 2,
                    fired := [(2000, CallInitModel)]\<rparr>"
  let ?p3 = "page0\<lparr>initAttempts := 3, statusHtml := statusFailed e2, btnDisabled := False,
                 btnText := lit ''Retry Loading Model'', btnOnclick := RetryLoad, loads := 3,
                 fired := [(2000, CallInitModel), (2000, CallInitModel)]\<rparr>"
  have s1: "initModel (pipeline (loads page0)) page0 = ?p1"
    by (simp add: initModel_def page0_def MAX_ATTEMPTS_def assms(1))
  have s2: "fire (pipeline (loads ?p1)) ?p1 = ?p2"
    using assms(2) by (simp add: fire_def initModel_def page0_def MAX_ATTEMPTS_def)
  have s3: "fire (pipeline (loads ?p2)) ?p2 = ?p3"
    using assms(3) by (simp add: fire_def initModel_def page0_def MAX_ATTEMPTS_def)
  have t1: "timers ?p1 \<noteq> []" and t2: "timers ?p2 \<noteq> []" and t3: "timers ?p3 = []"
    by (simp_all add: page0_def)
  have "settle pipeline ?p1 = settle pipeline ?p2"
    by (simp only: settle_step [OF t1] s2)
  also have "\<dots> = settle pipeline ?p3"
    by (simp only: settle_step [OF t2] s3)
  also have "\<dots> = ?p3"
    by (rule settle_done [OF t3])
  finally show ?thesis
    by (simp only: boot_def s1)
qed

section \<open>The claims\<close>

text \<open>
  Claim C1. Whenever the analyze operation sends a formatted report, there is an active
  editor and the report is the rendering of a list of diagnostics of its document that
  keeps their order, holds only diagnostics of severity Error, holds every diagnostic of
  severity Error as often as the document has it, and holds no diagnostic of severity
  Warning, Information or Hint.
\<close>

theorem report_covers_exactly_the_errors:
  assumes "(v, AnalyzeWithAI errorContext) \<in> set (posts basename x h)"
  shows "\<exists>editor reported.
           activeTextEditor h = Some editor
           \<and> errorContext = render_report (basename (fileName (document editor)))
                                (document editor) reported
           \<and> subseq reported (getDiagnostics h (uri (document editor)))
           \<and> (\<forall>d \<in> set reported. severity d = Error)
           \<and> (\<forall>d \<in> set (getDiagnostics h (uri (document editor))).
                  severity d = Error \<longrightarrow>
                  count_list reported d
                    = count_list (getDiagnostics h (uri (document editor))) d)
           \<and> (\<forall>d \<in> set (getDiagnostics h (uri (document editor))).
                  severity d \<in> {Warning, Information, Hint} \<longrightarrow> d \<notin> set reported)"
proof -
  from assms obtain editor where e: "activeTextEditor h = Some editor"
    and ctx: "errorContext = render_report (basename (fileName (document editor)))
                (document editor) (errorDiagnostics h (document editor))"
    by (rule posts_analyzeWithAI)
  let ?ds = "getDiagnostics h (uri (document editor))"
  let ?reported = "filter (\<lambda>d. severity d = Error) ?ds"
  have "subseq ?reported ?ds"
    by (rule subseq_filter_left)
  moreover have "\<forall>d \<in> set ?reported. severity d = Error"
    by simp
  moreover have "\<forall>d \<in> set ?ds. severity d = Error \<longrightarrow> count_list ?reported d = count_list ?ds d"
    by (simp add: count_list_filter)
  moreover have "\<forall>d \<in> set ?ds. severity d \<in> {Warning, Information, Hint} \<longrightarrow> d \<notin> set ?reported"
    by auto
  ultimately show ?thesis
    using e ctx by blast
qed

theorem report_covers_exactly_the_errors_witness:
  "(1, AnalyzeWithAI sample_report) \<in> set (posts basename_posix x_resolved h_sample)
   \<and> (\<exists>editor reported.
         activeTextEditor h_sample = Some editor
         \<and> sample_report = render_report (basename_posix (fileName (document editor)))
                              (document editor) reported
         \<and> subseq reported (getDiagnostics h_sample (uri (document editor)))
         \<and> (\<forall>d \<in> set reported. severity d = Error)
         \<and> (\<forall>d \<in> set (getDiagnostics h_sample (uri (document editor))).
                severity d = Error \<longrightarrow>
                count_list reported d
                  = count_list (getDiagnostics h_sample (uri (document editor))) d)
         \<and> (\<forall>d \<in> set (getDiagnostics h_sample (uri (document editor))).
                severity d \<in> {Warning, Information, Hint} \<longrightarrow> d \<notin> set reported))"
proof -
  have mem: "(1, AnalyzeWithAI sample_report) \<in> set (posts basename_posix x_resolved h_sample)"
    by (simp add: sample_posts)
  show ?thesis
    by (rule conjI [OF mem report_covers_exactly_the_errors [OF mem]])
qed

text \<open>
  Claim C2. The loop over a list of errors (in particular a non-empty one) yields a
  formatted text exactly when every error starts on a line of the document, and the text
  is then the header followed by exactly one block per error, in the order of the list:
  the \<open>i\<close>-th block is labelled \<open>i + 1\<close> and its line number is the diagnostic's
  0-based start line plus one.
\<close>

theorem blocks_in_diagnostic_order:
  "((\<exists>out. forEach_errors doc 0 errs hdr = Inr out) \<longleftrightarrow> list_all (in_document doc) errs)
         \<and> (\<forall>out. forEach_errors doc 0 errs hdr = Inr out \<longrightarrow>
               (\<exists>blocks.
                  out = hdr @ concat blocks
                  \<and> length blocks = length errs
                  \<and> (\<forall>i < length errs.
                         blocks ! i =
                           lit ''Error '' @ num (i + 1) @ lit '': '' @ message (errs ! i) @ nl
                             @ lit ''Line '' @ num (line (start (drange (errs ! i))) + 1)
                             @ lit '': ''
                             @ trim (lines doc ! line (start (drange (errs ! i))))
                             @ nl @ nl)))"
proof (intro conjI allI impI)
  show "(\<exists>out. forEach_errors doc 0 errs hdr = Inr out) \<longleftrightarrow> list_all (in_document doc) errs"
    by (rule forEach_errors_returns_iff)
next
  fix out
  assume ret: "forEach_errors doc 0 errs hdr = Inr out"
  then have "list_all (in_document doc) errs"
    using forEach_errors_returns_iff [of doc 0 errs hdr] by blast
  then have "forEach_errors doc 0 errs hdr = Inr (hdr @ concat (report_blocks doc errs))"
    by (rule forEach_errors_report)
  with ret have out: "out = hdr @ concat (report_blocks doc errs)"
    by simp
  have len: "length (report_blocks doc errs) = length errs"
    by (simp add: report_blocks_def)
  have nth: "\<forall>i < length errs.
      report_blocks doc errs ! i =
        lit ''Error '' @ num (i + 1) @ lit '': '' @ message (errs ! i) @ nl
          @ lit ''Line '' @ num (line (start (drange (errs ! i))) + 1) @ lit '': ''
          @ trim (lines doc ! line (start (drange (errs ! i)))) @ nl @ nl"
    by (simp add: report_blocks_def report_block_def)
  from out len nth
  show "\<exists>blocks.
          out = hdr @ concat blocks
          \<and> length blocks = length errs
          \<and> (\<forall>i < length errs.
                 blocks ! i =
                   lit ''Error '' @ num (i + 1) @ lit '': '' @ message (errs ! i) @ nl
                     @ lit ''Line '' @ num (line (start (drange (errs ! i))) + 1)
                     @ lit '': ''
                     @ trim (lines doc ! line (start (drange (errs ! i))))
                     @ nl @ nl)"
    by blast
qed

theorem blocks_in_diagnostic_order_witness:
  "list_all (in_document sample_doc) [d_paren, d_block]
   \<and> (\<exists>out blocks.
         forEach_errors sample_doc 0 [d_paren, d_block] (lit ''File: main.ts'' @ nl @ nl) = Inr out
         \<and> out = (lit ''File: main.ts'' @ nl @ nl) @ concat blocks
         \<and> length blocks = length [d_paren, d_block]
         \<and> (\<forall>i < length [d_paren, d_block].
                blocks ! i =
                  lit ''Error '' @ num (i + 1) @ lit '': '' @ message ([d_paren, d_block] ! i) @ nl
                    @ lit ''Line '' @ num (line (start (drange ([d_paren, d_block] ! i))) + 1)
                    @ lit '': ''
                    @ trim (lines sample_doc ! line (start (drange ([d_paren, d_block] ! i))))
                    @ nl @ nl))"
proof -
  note shape = blocks_in_diagnostic_order
    [of sample_doc "[d_paren, d_block]" "lit ''File: main.ts'' @ nl @ nl"]
  from shape sample_in_document obtain out where
    ret: "forEach_errors sample_doc 0 [d_paren, d_block] (lit ''File: main.ts'' @ nl @ nl) = Inr out"
    by blast
  with shape sample_in_document show ?thesis
    by blast
qed

text \<open>
  Claim C3, as stated, fails while the view is not resolved: with no active editor the
  operation posts nothing.
\<close>

theorem info_messages_unresolved_counterexample:
  "activeTextEditor h_no_editor = None
   \<and> (1, ShowResult noActiveFile) \<notin> set (posts basename_posix x_unresolved h_no_editor)
   \<and> posts basename_posix x_unresolved h_no_editor = []"
  by (simp add: h_no_editor_def posts_unresolved x_unresolved_def)

text \<open>
  Claim C3, amended. Once the view is resolved, the analyze operation posts the "no active
  file" message exactly when there is no active editor, and the "no errors found" message
  exactly when there is an active editor whose document has no diagnostic of severity
  Error. In both cases the single message posted is a \<open>showResult\<close> message, no
  \<open>analyzeWithAI\<close> message is sent, and the operation returns normally.
\<close>

theorem info_messages_when_resolved:
  assumes "view x = Some v"
  shows "((v, ShowResult noActiveFile) \<in> set (posts basename x h)
            \<longleftrightarrow> activeTextEditor h = None)
         \<and> ((v, ShowResult noErrorsFound) \<in> set (posts basename x h)
            \<longleftrightarrow> (\<exists>editor. activeTextEditor h = Some editor
                            \<and> errorDiagnostics h (document editor) = []))
         \<and> (activeTextEditor h = None
              \<or> (\<exists>editor. activeTextEditor h = Some editor
                           \<and> errorDiagnostics h (document editor) = [])
            \<longrightarrow> (\<exists>t. posts basename x h = [(v, ShowResult t)])
                \<and> (\<forall>w c. (w, AnalyzeWithAI c) \<notin> set (posts basename x h))
                \<and> analyzeCurrentFile basename x h
                    = Inr (x, h\<lparr>posted := posted h @ posts basename x h\<rparr>))"
proof (cases rule: analyze_outcomes [where x = x and h = h])
  case unresolved
  with assms show ?thesis by simp
next
  case (no_editor v')
  with assms show ?thesis
    by (simp add: posts_no_editor analyze_no_editor postMessage_def
          noActiveFile_neq_noErrorsFound [symmetric])
next
  case (no_errors v' editor)
  with assms show ?thesis
    using noActiveFile_neq_noErrorsFound
    by (simp add: posts_no_errors analyze_no_errors postMessage_def)
next
  case (errors v' editor)
  with assms show ?thesis
    by (simp add: posts_errors)
next
  case (stale v' editor)
  moreover from stale have "errorDiagnostics h (document editor) \<noteq> []"
    by auto
  ultimately show ?thesis
    using assms by (simp add: posts_stale)
qed

theorem info_messages_when_resolved_witness:
  "view x_resolved = Some 1
   \<and> activeTextEditor h_no_editor = None
   \<and> posts basename_posix x_resolved h_no_editor = [(1, ShowResult noActiveFile)]
   \<and> errorDiagnostics h_clean sample_doc = []
   \<and> posts basename_posix x_resolved h_clean = [(1, ShowResult noErrorsFound)]"
proof -
  have a: "activeTextEditor h_no_editor = None"
    by (simp add: h_no_editor_def)
  have b: "activeTextEditor h_clean = Some \<lparr>document = sample_doc\<rparr>"
    by (simp add: h_clean_def)
  have c: "errorDiagnostics h_clean sample_doc = []"
    by (simp add: h_clean_def d_unused_def)
  have "(1, ShowResult noActiveFile) \<in> set (posts basename_posix x_resolved h_no_editor)"
    using info_messages_when_resolved [OF view_x_resolved, of basename_posix h_no_editor] a
    by simp
  moreover have "(1, ShowResult noErrorsFound) \<in> set (posts basename_posix x_resolved h_clean)"
    using info_messages_when_resolved [OF view_x_resolved, of basename_posix h_clean] b c
    by simp
  moreover have "\<exists>t. posts basename_posix x_resolved h_no_editor = [(1, ShowResult t)]"
    using info_messages_when_resolved [OF view_x_resolved, of basename_posix h_no_editor] a
    by simp
  moreover have "\<exists>t. posts basename_posix x_resolved h_clean = [(1, ShowResult t)]"
    using info_messages_when_resolved [OF view_x_resolved, of basename_posix h_clean] b c
    by simp
  ultimately show ?thesis
    using view_x_resolved a c by auto
qed

text \<open>
  Claim C4, as stated, fails for a document with two errors: the prompt holds the file
  name once, ahead of the records, and neither record holds it.
\<close>

theorem prompt_file_name_once_counterexample:
  "errorDiagnostics h_sample sample_doc = [d_paren, d_block]
   \<and> basename_posix (fileName sample_doc) = lit ''main.ts''
   \<and> posts basename_posix x_resolved h_sample
       = [(1, AnalyzeWithAI (lit ''File: main.ts'' @ nl @ nl @ sample_record1 @ sample_record2))]
   \<and> \<not> sublist (lit ''main.ts'') sample_record1
   \<and> \<not> sublist (lit ''main.ts'') sample_record2"
proof -
  have name: "basename_posix (fileName sample_doc) = lit ''main.ts''"
    by (simp add: basename_posix_def sample_doc_def lit_def)
  have split: "sample_report = lit ''File: main.ts'' @ nl @ nl @ sample_record1 @ sample_record2"
    by (simp add: sample_report_def sample_record1_def sample_record2_def)
  have r1: "\<not> sublist (lit ''main.ts'') sample_record1"
    by (simp add: sample_record1_def lit_def nl_def sublist_Cons_right)
  have r2: "\<not> sublist (lit ''main.ts'') sample_record2"
    by (simp add: sample_record2_def lit_def nl_def sublist_Cons_right)
  from name split r1 r2 show ?thesis
    using sample_errors sample_posts by simp
qed

text \<open>
  Claim C4, amended. The prompt that is sent is one string: the file name (the base name
  of the document's file name), written once at its head, followed by one record per
  error diagnostic that consists of the diagnostic message, the 1-based line number and
  the text of the source line with the surrounding white space trimmed. Trimming takes
  white space, and nothing else, from both ends: what is left neither starts nor ends
  with white space.
\<close>

theorem prompt_contents:
  assumes "(v, AnalyzeWithAI prompt) \<in> set (posts basename x h)"
  shows "(\<exists>editor records.
            activeTextEditor h = Some editor
            \<and> prompt = lit ''File: '' @ basename (fileName (document editor)) @ nl @ nl
                         @ concat records
            \<and> length records = length (errorDiagnostics h (document editor))
            \<and> (\<forall>i < length (errorDiagnostics h (document editor)).
                   line (start (drange (errorDiagnostics h (document editor) ! i)))
                     < length (lines (document editor))
                   \<and> records ! i =
                       lit ''Error '' @ num (i + 1) @ lit '': ''
                         @ message (errorDiagnostics h (document editor) ! i) @ nl
                         @ lit ''Line ''
                         @ num (line (start (drange (errorDiagnostics h (document editor) ! i))) + 1)
                         @ lit '': ''
                         @ trim (lines (document editor)
                                   ! line (start (drange (errorDiagnostics h (document editor) ! i))))
                         @ nl @ nl))
         \<and> (\<forall>s. (\<exists>l r. s = l @ trim s @ r \<and> list_all isWhiteSpace l \<and> list_all isWhiteSpace r)
                  \<and> (trim s \<noteq> [] \<longrightarrow>
                         \<not> isWhiteSpace (hd (trim s)) \<and> \<not> isWhiteSpace (last (trim s))))"
proof (rule conjI)
  from assms obtain editor where e: "activeTextEditor h = Some editor"
    and ind: "list_all (in_document (document editor)) (errorDiagnostics h (document editor))"
    and prompt: "prompt = render_report (basename (fileName (document editor))) (document editor)
                  (errorDiagnostics h (document editor))"
    by (rule posts_analyzeWithAI)
  let ?doc = "document editor"
  let ?errs = "errorDiagnostics h ?doc"
  have "prompt = lit ''File: '' @ basename (fileName ?doc) @ nl @ nl
                   @ concat (report_blocks ?doc ?errs)"
    by (simp add: prompt render_report_def)
  moreover have "length (report_blocks ?doc ?errs) = length ?errs"
    by (simp add: report_blocks_def)
  moreover have "\<forall>i < length ?errs. line (start (drange (?errs ! i))) < length (lines ?doc)"
    using ind by (simp add: list_all_length in_document_def)
  moreover have "\<forall>i < length ?errs.
      report_blocks ?doc ?errs ! i =
        lit ''Error '' @ num (i + 1) @ lit '': '' @ message (?errs ! i) @ nl
          @ lit ''Line '' @ num (line (start (drange (?errs ! i))) + 1) @ lit '': ''
          @ trim (lines ?doc ! line (start (drange (?errs ! i)))) @ nl @ nl"
    by (simp add: report_blocks_def report_block_def)
  ultimately show "\<exists>editor records.
            activeTextEditor h = Some editor
            \<and> prompt = lit ''File: '' @ basename (fileName (document editor)) @ nl @ nl
                         @ concat records
            \<and> length records = length (errorDiagnostics h (document editor))
            \<and> (\<forall>i < length (errorDiagnostics h (document editor)).
                   line (start (drange (errorDiagnostics h (document editor) ! i)))
                     < length (lines (document editor))
                   \<and> records ! i =
                       lit ''Error '' @ num (i + 1) @ lit '': ''
                         @ message (errorDiagnostics h (document editor) ! i) @ nl
                         @ lit ''Line ''
                         @ num (line (start (drange (errorDiagnostics h (document editor) ! i))) + 1)
                         @ lit '': ''
                         @ trim (lines (document editor)
                                   ! line (start (drange (errorDiagnostics h (document editor) ! i))))
                         @ nl @ nl)"
    using e by blast
next
  show "\<forall>s. (\<exists>l r. s = l @ trim s @ r \<and> list_all isWhiteSpace l \<and> list_all isWhiteSpace r)
              \<and> (trim s \<noteq> [] \<longrightarrow>
                     \<not> isWhiteSpace (hd (trim s)) \<and> \<not> isWhiteSpace (last (trim s)))"
    using trim_splits trim_ends by blast
qed

theorem prompt_contents_witness:
  "(1, AnalyzeWithAI sample_report) \<in> set (posts basename_posix x_resolved h_sample)
   \<and> ((\<exists>editor records.
            activeTextEditor h_sample = Some editor
            \<and> sample_report = lit ''File: '' @ basename_posix (fileName (document editor)) @ nl @ nl
                         @ concat records
            \<and> length records = length (errorDiagnostics h_sample (document editor))
            \<and> (\<forall>i < length (errorDiagnostics h_sample (document editor)).
                   line (start (drange (errorDiagnostics h_sample (document editor) ! i)))
                     < length (lines (document editor))
                   \<and> records ! i =
                       lit ''Error '' @ num (i + 1) @ lit '': ''
                         @ message (errorDiagnostics h_sample (document editor) ! i) @ nl
                         @ lit ''Line ''
                         @ num (line (start (drange (errorDiagnostics h_sample (document editor) ! i))) + 1)
                         @ lit '': ''
                         @ trim (lines (document editor)
                                   ! line (start (drange (errorDiagnostics h_sample (document editor) ! i))))
                         @ nl @ nl))
         \<and> (\<forall>s. (\<exists>l r. s = l @ trim s @ r \<and> list_all isWhiteSpace l \<and> list_all isWhiteSpace r)
                  \<and> (trim s \<noteq> [] \<longrightarrow>
                         \<not> isWhiteSpace (hd (trim s)) \<and> \<not> isWhiteSpace (last (trim s)))))"
proof -
  have mem: "(1, AnalyzeWithAI sample_report) \<in> set (posts basename_posix x_resolved h_sample)"
    by (simp add: sample_posts)
  show ?thesis
    by (rule conjI [OF mem prompt_contents [OF mem]])
qed

text \<open>
  Claim C5, as stated, fails in two situations where an active editor has a document with
  an error: while the view is not resolved, and when an error diagnostic starts behind
  the end of the document. Nothing is posted in either.
\<close>

theorem report_not_sent_counterexample:
  "activeTextEditor h_sample = Some \<lparr>document = sample_doc\<rparr>
   \<and> errorDiagnostics h_sample sample_doc = [d_paren, d_block]
   \<and> view x_unresolved = None
   \<and> posts basename_posix x_unresolved h_sample = []
   \<and> activeTextEditor h_stale = Some \<lparr>document = sample_doc\<rparr>
   \<and> errorDiagnostics h_stale sample_doc = [d_stale]
   \<and> view x_resolved = Some 1
   \<and> posts basename_posix x_resolved h_stale = []"
proof -
  have e: "activeTextEditor h_stale = Some \<lparr>document = sample_doc\<rparr>"
    by (simp add: h_stale_def)
  have errs: "errorDiagnostics h_stale sample_doc = [d_stale]"
    by (simp add: h_stale_def d_stale_def)
  have "\<not> list_all (in_document (document \<lparr>document = sample_doc\<rparr>))
               (errorDiagnostics h_stale (document \<lparr>document = sample_doc\<rparr>))"
    using errs by (simp add: in_document_def d_stale_def sample_doc_def)
  then have "posts basename_posix x_resolved h_stale = []"
    by (rule posts_stale [OF view_x_resolved e])
  moreover have "posts basename_posix x_unresolved h_sample = []"
    by (simp add: posts_unresolved x_unresolved_def)
  ultimately show ?thesis
    using e errs view_x_resolved
    by (simp add: sample_errors x_unresolved_def) (simp add: h_sample_def)
qed

text \<open>
  Claim C5, amended. When the view is resolved, an active editor exists, its document has
  at least one diagnostic of severity Error and every such diagnostic starts on a line of
  the document, the loop over the errors yields the formatted text and exactly one
  message is posted: an \<open>analyzeWithAI\<close> message to the resolved view that carries this
  text.
\<close>

theorem report_sent_once:
  assumes "view x = Some v"
      and "activeTextEditor h = Some editor"
      and "errorDiagnostics h (document editor) \<noteq> []"
      and "list_all (in_document (document editor)) (errorDiagnostics h (document editor))"
  shows "\<exists>errorContext.
           forEach_errors (document editor) 0 (errorDiagnostics h (document editor))
               (lit ''File: '' @ basename (fileName (document editor)) @ nl @ nl)
             = Inr errorContext
           \<and> errorContext = render_report (basename (fileName (document editor)))
                                (document editor) (errorDiagnostics h (document editor))
           \<and> posts basename x h = [(v, AnalyzeWithAI errorContext)]
           \<and> analyzeCurrentFile basename x h
               = Inr (x, h\<lparr>posted := posted h @ [(v, AnalyzeWithAI errorContext)]\<rparr>)"
  using assms
  by (simp add: posts_errors analyze_errors postMessage_def forEach_errors_report
        render_report_def)

theorem report_sent_once_witness:
  "view x_resolved = Some 1
   \<and> activeTextEditor h_sample = Some \<lparr>document = sample_doc\<rparr>
   \<and> errorDiagnostics h_sample sample_doc = [d_paren, d_block]
   \<and> list_all (in_document sample_doc) [d_paren, d_block]
   \<and> posts basename_posix x_resolved h_sample = [(1, AnalyzeWithAI sample_report)]"
proof -
  have e: "activeTextEditor h_sample = Some \<lparr>document = sample_doc\<rparr>"
    by (simp add: h_sample_def)
  have ne: "errorDiagnostics h_sample (document \<lparr>document = sample_doc\<rparr>) \<noteq> []"
    by (simp add: sample_errors)
  have ind: "list_all (in_document (document \<lparr>document = sample_doc\<rparr>))
               (errorDiagnostics h_sample (document \<lparr>document = sample_doc\<rparr>))"
    using sample_in_document by (simp add: sample_errors)
  show ?thesis
    using report_sent_once [OF view_x_resolved e ne ind, of basename_posix]
      view_x_resolved e sample_in_document
    by (simp add: sample_errors sample_render)
qed

text \<open>
  Claim C6. When the model fails to load three times in a row, the script has called the
  loader \<open>MAX_ATTEMPTS = 3\<close> times, with one timer of 2000 ms before the second and
  before the third call; after the third failure no timer is pending, and the button is
  enabled and reads "Retry Loading Model". A click on it then sets the attempt counter
  back to zero, restores the button and calls \<open>initModel\<close> again: a fourth load, counted
  as attempt 1, which on failure is again followed by a timer of 2000 ms. Whatever the
  outcomes of the loads are, the script on its own calls the loader at most
  \<open>MAX_ATTEMPTS\<close> times and ends with no timer pending.
\<close>

theorem model_load_retries:
  assumes "pipeline 0 = LoadFailed e0"
      and "pipeline 1 = LoadFailed e1"
      and "pipeline 2 = LoadFailed e2"
  shows "loads (boot pipeline) = MAX_ATTEMPTS \<and> MAX_ATTEMPTS = 3
         \<and> fired (boot pipeline) = [(2000, CallInitModel), (2000, CallInitModel)]
         \<and> timers (boot pipeline) = []
         \<and> \<not> isInitialized (boot pipeline)
         \<and> \<not> btnDisabled (boot pipeline)
         \<and> btnText (boot pipeline) = lit ''Retry Loading Model''
         \<and> btnOnclick (boot pipeline) = RetryLoad
         \<and> (\<forall>outcomes. loads (boot outcomes) \<le> MAX_ATTEMPTS \<and> timers (boot outcomes) = [])
         \<and> (\<forall>r. click r (boot pipeline) =
                  (initModel r ((boot pipeline)\<lparr>initAttempts := 0,
                                   btnText := lit ''Analyze Errors'',
                                   btnOnclick := CallAnalyzeErrors\<rparr>), [])
                \<and> initAttempts (fst (click r (boot pipeline))) = 1
                \<and> loads (fst (click r (boot pipeline))) = MAX_ATTEMPTS + 1
                \<and> btnText (fst (click r (boot pipeline))) = lit ''Analyze Errors''
                \<and> btnOnclick (fst (click r (boot pipeline))) = CallAnalyzeErrors
                \<and> (\<forall>msg. r = LoadFailed msg \<longrightarrow>
                       timers (fst (click r (boot pipeline))) = [(2000, CallInitModel)]))"
proof -
  note final = boot_all_failed [OF assms]
  have state: "loads (boot pipeline) = MAX_ATTEMPTS \<and> MAX_ATTEMPTS = 3
         \<and> fired (boot pipeline) = [(2000, CallInitModel), (2000, CallInitModel)]
         \<and> timers (boot pipeline) = []
         \<and> \<not> isInitialized (boot pipeline)
         \<and> \<not> btnDisabled (boot pipeline)
         \<and> btnText (boot pipeline) = lit ''Retry Loading Model''
         \<and> btnOnclick (boot pipeline) = RetryLoad"
    by (simp add: final page0_def MAX_ATTEMPTS_def)
  have retry: "click r (boot pipeline) =
                  (initModel r ((boot pipeline)\<lparr>initAttempts := 0,
                                   btnText := lit ''Analyze Errors'',
                                   btnOnclick := CallAnalyzeErrors\<rparr>), [])
                \<and> initAttempts (fst (click r (boot pipeline))) = 1
                \<and> loads (fst (click r (boot pipeline))) = MAX_ATTEMPTS + 1
                \<and> btnText (fst (click r (boot pipeline))) = lit ''Analyze Errors''
                \<and> btnOnclick (fst (click r (boot pipeline))) = CallAnalyzeErrors
                \<and> (\<forall>msg. r = LoadFailed msg \<longrightarrow>
                       timers (fst (click r (boot pipeline))) = [(2000, CallInitModel)])" for r
    by (cases r) (simp_all add: final click_def initModel_def page0_def MAX_ATTEMPTS_def)
  from state retry boot_bounded show ?thesis
    by blast
qed

theorem model_load_retries_witness:
  "loads (boot (\<lambda>n. LoadFailed (lit ''Failed to fetch''))) = 3
   \<and> fired (boot (\<lambda>n. LoadFailed (lit ''Failed to fetch'')))
       = [(2000, CallInitModel), (2000, CallInitModel)]
   \<and> timers (boot (\<lambda>n. LoadFailed (lit ''Failed to fetch''))) = []
   \<and> btnText (boot (\<lambda>n. LoadFailed (lit ''Failed to fetch''))) = lit ''Retry Loading Model''
   \<and> btnOnclick (boot (\<lambda>n. LoadFailed (lit ''Failed to fetch''))) = RetryLoad
   \<and> loads (fst (click Loaded (boot (\<lambda>n. LoadFailed (lit ''Failed to fetch''))))) = 4
   \<and> isInitialized (fst (click Loaded (boot (\<lambda>n. LoadFailed (lit ''Failed to fetch'')))))"
proof -
  let ?pipeline = "\<lambda>n :: nat. LoadFailed (lit ''Failed to fetch'')"
  have f: "?pipeline 0 = LoadFailed (lit ''Failed to fetch'')"
    "?pipeline 1 = LoadFailed (lit ''Failed to fetch'')"
    "?pipeline 2 = LoadFailed (lit ''Failed to fetch'')"
    by simp_all
  note retries = model_load_retries [of ?pipeline, OF f]
  from retries have click:
    "click Loaded (boot ?pipeline) =
       (initModel Loaded ((boot ?pipeline)\<lparr>initAttempts := 0, btnText := lit ''Analyze Errors'',
                             btnOnclick := CallAnalyzeErrors\<rparr>), [])"
    by blast
  from retries have init: "\<not> isInitialized (boot ?pipeline)"
    by blast
  have ready: "isInitialized (fst (click Loaded (boot ?pipeline)))"
    using init by (simp add: click initModel_def)
  from retries have again: "loads (fst (click Loaded (boot ?pipeline))) = MAX_ATTEMPTS + 1"
    by blast
  from retries have
    "loads (boot ?pipeline) = MAX_ATTEMPTS"
    "fired (boot ?pipeline) = [(2000, CallInitModel), (2000, CallInitModel)]"
    "timers (boot ?pipeline) = []"
    "btnText (boot ?pipeline) = lit ''Retry Loading Model''"
    "btnOnclick (boot ?pipeline) = RetryLoad"
    by blast+
  with ready again show ?thesis
    by (simp add: MAX_ATTEMPTS_def)
qed

text \<open>
  Claim C7. The analyze operation's only effect is posting: when it returns, the state of
  the extension (the optional view reference, the extension URI, the unused panel
  variable) is the one it started from, and the host differs only by the at most one
  message appended to the channel; nothing is awaited. The view reference is the only
  part of the extension state that any operation writes: resolving the view leaves the
  rest alone.
\<close>

theorem analyze_only_posts:
  assumes "analyzeCurrentFile basename x h = Inr (x', h')"
  shows "x' = x
         \<and> h' = h\<lparr>posted := posted h @ posts basename x h\<rparr>
         \<and> length (posts basename x h) \<le> 1
         \<and> panel (resolveWebviewView w x) = panel x
         \<and> extensionUri (resolveWebviewView w x) = extensionUri x"
  using analyze_returns_posts [OF assms] posts_at_most_one [of basename x h]
  by (simp add: resolveWebviewView_def)

theorem analyze_only_posts_witness:
  "analyzeCurrentFile basename_posix x_resolved h_sample =
     Inr (x_resolved, h_sample\<lparr>posted := [(1, AnalyzeWithAI sample_report)]\<rparr>)
   \<and> h_sample\<lparr>posted := [(1, AnalyzeWithAI sample_report)]\<rparr> =
       h_sample\<lparr>posted := posted h_sample @ posts basename_posix x_resolved h_sample\<rparr>
   \<and> length (posts basename_posix x_resolved h_sample) \<le> 1"
  using sample_analyze analyze_only_posts [OF sample_analyze] by simp

text \<open>
  Claim C8. While the view has not been resolved (the reference to the display surface is
  undefined), the analyze operation returns at once: it posts no message, raises no
  error and leaves the extension and the host as they were, whatever the editor and the
  diagnostics are.
\<close>

theorem unresolved_view_returns_silently:
  assumes "view x = None"
  shows "analyzeCurrentFile basename x h = Inr (x, h) \<and> posts basename x h = []"
  using assms by (simp add: analyzeCurrentFile_def posts_def)

theorem unresolved_view_returns_silently_witness:
  "view x_unresolved = None
   \<and> analyzeCurrentFile basename_posix x_unresolved h_sample = Inr (x_unresolved, h_sample)
   \<and> posts basename_posix x_unresolved h_sample = []"
proof -
  have none: "view x_unresolved = None"
    by (simp add: x_unresolved_def)
  show ?thesis
    using none unresolved_view_returns_silently [OF none, of basename_posix h_sample] by simp
qed

text \<open>
  Claim C9. For every error whose start line is in the document (so also one whose range
  spans several lines), the block of the formatted text holds the trimmed text of the
  line the range starts on, after the message and the 1-based number of that line, and
  the text of no other line: moving the end of any range and changing any line on which
  no error starts (so also the later lines of a range) leaves the formatted text as it
  is.
\<close>

theorem only_start_line_text:
  assumes "list_all (in_document doc) errs"
      and "list_all (in_document doc') errs"
      and "\<forall>d \<in> set errs.
             lines doc' ! line (start (drange d)) = lines doc ! line (start (drange d))"
  shows "(\<exists>blocks.
            forEach_errors doc idx errs ctx = Inr (ctx @ concat blocks)
            \<and> length blocks = length errs
            \<and> (\<forall>i < length errs.
                   blocks ! i =
                     lit ''Error '' @ num (idx + i + 1) @ lit '': '' @ message (errs ! i) @ nl
                       @ lit ''Line '' @ num (line (start (drange (errs ! i))) + 1) @ lit '': ''
                       @ trim (lines doc ! line (start (drange (errs ! i))))
                       @ nl @ nl))
         \<and> forEach_errors doc' idx (map (\<lambda>d. d\<lparr>drange := (drange d)\<lparr>endp := e d\<rparr>\<rparr>) errs) ctx
             = forEach_errors doc idx errs ctx"
proof
  let ?blocks = "map (\<lambda>i. report_block doc (idx + i + 1) (errs ! i)) [0..<length errs]"
  have "forEach_errors doc idx errs ctx = Inr (ctx @ concat ?blocks)"
    using assms(1) by (rule forEach_errors_blocks)
  moreover have "length ?blocks = length errs"
    by simp
  moreover have "\<forall>i < length errs.
      ?blocks ! i =
        lit ''Error '' @ num (idx + i + 1) @ lit '': '' @ message (errs ! i) @ nl
          @ lit ''Line '' @ num (line (start (drange (errs ! i))) + 1) @ lit '': ''
          @ trim (lines doc ! line (start (drange (errs ! i)))) @ nl @ nl"
    by (simp add: report_block_def)
  ultimately show "\<exists>blocks.
            forEach_errors doc idx errs ctx = Inr (ctx @ concat blocks)
            \<and> length blocks = length errs
            \<and> (\<forall>i < length errs.
                   blocks ! i =
                     lit ''Error '' @ num (idx + i + 1) @ lit '': '' @ message (errs ! i) @ nl
                       @ lit ''Line '' @ num (line (start (drange (errs ! i))) + 1) @ lit '': ''
                       @ trim (lines doc ! line (start (drange (errs ! i))))
                       @ nl @ nl)"
    by blast
next
  from assms
  show "forEach_errors doc' idx (map (\<lambda>d. d\<lparr>drange := (drange d)\<lparr>endp := e d\<rparr>\<rparr>) errs) ctx
          = forEach_errors doc idx errs ctx"
    by (induction errs arbitrary: idx ctx)
       (simp_all add: lineAt_def in_document_def errorLine_def sourceLine_def)
qed

theorem only_start_line_text_witness:
  "list_all (in_document sample_doc) [d_paren, d_block]
   \<and> list_all (in_document sample_doc_edited) [d_paren, d_block]
   \<and> line (start (drange d_block)) = 0 \<and> line (endp (drange d_block)) = 2
   \<and> lines sample_doc_edited ! 2 \<noteq> lines sample_doc ! 2
   \<and> forEach_errors sample_doc 0 [d_paren, d_block] (lit ''File: main.ts'' @ nl @ nl)
       = Inr (lit ''File: main.ts'' @ nl @ nl @ sample_record1
                @ lit ''Error 2: Unreachable block.'' @ nl @ lit ''Line 1: if (x) {'' @ nl @ nl)
   \<and> forEach_errors sample_doc_edited 0
         (map (\<lambda>d. d\<lparr>drange := (drange d)\<lparr>endp := start (drange d)\<rparr>\<rparr>) [d_paren, d_block])
         (lit ''File: main.ts'' @ nl @ nl)
       = Inr (lit ''File: main.ts'' @ nl @ nl @ sample_record1
                @ lit ''Error 2: Unreachable block.'' @ nl @ lit ''Line 1: if (x) {'' @ nl @ nl)"
proof -
  have a: "list_all (in_document sample_doc_edited) [d_paren, d_block]"
    by (simp add: in_document_def sample_doc_edited_def d_paren_def d_block_def)
  have b: "\<forall>d \<in> set [d_paren, d_block].
             lines sample_doc_edited ! line (start (drange d))
               = lines sample_doc ! line (start (drange d))"
    by (simp add: sample_doc_edited_def sample_doc_def d_paren_def d_block_def)
  have c: "line (start (drange d_block)) = 0 \<and> line (endp (drange d_block)) = 2"
    by (simp add: d_block_def)
  have d: "lines sample_doc_edited ! 2 \<noteq> lines sample_doc ! 2"
    by (simp add: sample_doc_edited_def sample_doc_def lit_def)
  have out: "sample_report = lit ''File: main.ts'' @ nl @ nl @ sample_record1
                @ lit ''Error 2: Unreachable block.'' @ nl @ lit ''Line 1: if (x) {'' @ nl @ nl"
    by (simp add: sample_report_def sample_record1_def)
  note only = only_start_line_text [OF sample_in_document a b,
        of 0 "lit ''File: main.ts'' @ nl @ nl" "\<lambda>d. start (drange d)"]
  from only have same:
    "forEach_errors sample_doc_edited 0
         (map (\<lambda>d. d\<lparr>drange := (drange d)\<lparr>endp := start (drange d)\<rparr>\<rparr>) [d_paren, d_block])
         (lit ''File: main.ts'' @ nl @ nl)
       = forEach_errors sample_doc 0 [d_paren, d_block] (lit ''File: main.ts'' @ nl @ nl)"
    by (rule conjunct2)
  show ?thesis
    using sample_in_document a c d same
    by (simp only: sample_loop out [symmetric] simp_thms)
qed

text \<open>
  Claim C10 at a document that was cut down to one line while an error diagnostic still
  points to its former second line: the view is resolved, yet \<open>lineAt\<close> throws inside
  the loop and no message is posted.
\<close>

theorem shrunk_document_throws:
  "view x_resolved = Some 1
   \<and> activeTextEditor h_shrunk = Some \<lparr>document = sample_doc\<lparr>lines := [lit ''if (x) {}'']\<rparr>\<rparr>
   \<and> errorDiagnostics h_shrunk (sample_doc\<lparr>lines := [lit ''if (x) {}'']\<rparr>) = [d_paren]
   \<and> analyzeCurrentFile basename_posix x_resolved h_shrunk = Inl IllegalLine
   \<and> posts basename_posix x_resolved h_shrunk = []"
proof -
  let ?doc = "sample_doc\<lparr>lines := [lit ''if (x) {}'']\<rparr>"
  have e: "activeTextEditor h_shrunk = Some \<lparr>document = ?doc\<rparr>"
    by (simp add: h_shrunk_def)
  have errs: "errorDiagnostics h_shrunk ?doc = [d_paren]"
    by (simp add: h_shrunk_def d_paren_def d_unused_def)
  have out: "\<not> list_all (in_document (document \<lparr>document = ?doc\<rparr>))
               (errorDiagnostics h_shrunk (document \<lparr>document = ?doc\<rparr>))"
    using errs by (simp add: in_document_def d_paren_def)
  show ?thesis
    using analyze_stale [OF view_x_resolved e out] posts_stale [OF view_x_resolved e out]
      view_x_resolved e errs
    by simp
qed

end
